theory Spec2Isabelle
  imports Complex_Main
begin

section \<open>The extended bytecode interpreter of \<^verbatim>\<open>solutions/interpret.py\<close>\<close>

text \<open>
  The theory embeds the class \<^verbatim>\<open>ExtendedInterpreter\<close>: its fields, the fifteen
  \<^verbatim>\<open>step_\<close> methods and the loop of \<^verbatim>\<open>interpret\<close>. Mutation of \<^verbatim>\<open>self\<close> is explicit
  state passing, a Python exception is the left summand of a sum type, and the
  \<^verbatim>\<open>l.debug\<close> lines of every iteration are collected in a list.
\<close>

subsection \<open>Values\<close>

text \<open>
  Stack and local entries are Python ints and bools (\<^verbatim>\<open>__main__\<close> builds the inputs with
  \<^verbatim>\<open>i == "true"\<close> and \<^verbatim>\<open>int(i)\<close>). Python's \<^verbatim>\<open>bool\<close> is a subclass of \<^verbatim>\<open>int\<close>: in
  \<^verbatim>\<open>+\<close>, \<^verbatim>\<open>-\<close>, \<^verbatim>\<open>*\<close>, \<^verbatim>\<open>//\<close>, \<^verbatim>\<open>==\<close>, \<^verbatim>\<open>!=\<close> and \<^verbatim>\<open>>=\<close> the value \<^verbatim>\<open>True\<close> counts as 1 and
  \<^verbatim>\<open>False\<close> as 0, and the result of the arithmetic is an int.
\<close>

datatype val = IntV int | BoolV bool

fun as_int :: "val \<Rightarrow> int" where
  "as_int (IntV n) = n"
| "as_int (BoolV b) = (if b then 1 else 0)"

text \<open>Truth value of a Python int or bool under \<^verbatim>\<open>if\<close>.\<close>

definition truthy :: "val \<Rightarrow> bool" where
  "truthy v = (as_int v \<noteq> 0)"

subsection \<open>Instructions\<close>

text \<open>\<^verbatim>\<open>JvmType\<close>: the literals \<^verbatim>\<open>"boolean"\<close> and \<^verbatim>\<open>"int"\<close>.\<close>

datatype JvmType = Boolean | Int

text \<open>
  A bytecode entry is a dictionary with the key \<^verbatim>\<open>"opr"\<close> and the fields its handler
  reads: \<^verbatim>\<open>bc["value"]["value"]\<close> for push, \<^verbatim>\<open>bc["target"]\<close> for the two branches,
  \<^verbatim>\<open>bc["index"]\<close> for load and store, \<^verbatim>\<open>bc["type"]\<close> (possibly \<^verbatim>\<open>None\<close>) for return.
  \<open>Unknown opr\<close> is an entry whose \<^verbatim>\<open>"opr"\<close> is none of the fifteen names that have a
  \<^verbatim>\<open>step_\<close> method.
\<close>

datatype instr =
    Push val
  | Pop
  | Dup
  | Swap
  | Nop
  | Add
  | Subtract
  | Multiply
  | Divide
  | If_icmpge int
  | If_icmpne int
  | Load int
  | Store int
  | Return "JvmType option"
  | Ireturn
  | Unknown string

subsection \<open>Outcomes and exceptions\<close>

text \<open>
  What \<^verbatim>\<open>interpret\<close> returns and what \<^verbatim>\<open>self.done\<close> holds once set: the strings
  \<^verbatim>\<open>"ok"\<close>, \<^verbatim>\<open>"divide by zero"\<close>, \<^verbatim>\<open>"out of time"\<close>, the string
  \<^verbatim>\<open>f"can't handle {opr!r}"\<close>, or the value popped by \<^verbatim>\<open>step_ireturn\<close>.
\<close>

datatype outcome =
    Ok
  | DivideByZero
  | OutOfTime
  | CantHandle string
  | Returned val

text \<open>
  Truth value of \<^verbatim>\<open>self.done\<close> in \<^verbatim>\<open>if self.done: break\<close>: \<^verbatim>\<open>None\<close> is false, each
  of the (non-empty) strings is true, an int or bool is true when it is not 0.
\<close>

fun outcome_truthy :: "outcome \<Rightarrow> bool" where
  "outcome_truthy (Returned v) = truthy v"
| "outcome_truthy _ = True"

text \<open>The one exception the list operations of the class can raise.\<close>

datatype exn = IndexError

subsection \<open>Python list operations\<close>

text \<open>
  \<^verbatim>\<open>xs[i]\<close>: a negative index counts from the end, an index outside
  \<open>-len(xs) \<le> i < len(xs)\<close> raises \<^verbatim>\<open>IndexError\<close>. \<open>py_index\<close> is the position read.
\<close>

definition py_index :: "'a list \<Rightarrow> int \<Rightarrow> exn + nat" where
  "py_index xs i =
     (let n = int (length xs); j = (if i < 0 then i + n else i)
      in if 0 \<le> j \<and> j < n then Inr (nat j) else Inl IndexError)"

definition py_get :: "'a list \<Rightarrow> int \<Rightarrow> exn + 'a" where
  "py_get xs i = (case py_index xs i of Inl e \<Rightarrow> Inl e | Inr j \<Rightarrow> Inr (xs ! j))"

text \<open>\<^verbatim>\<open>xs[i] = v\<close>, with the same index rule.\<close>

definition py_set :: "'a list \<Rightarrow> int \<Rightarrow> 'a \<Rightarrow> exn + 'a list" where
  "py_set xs i v = (case py_index xs i of Inl e \<Rightarrow> Inl e | Inr j \<Rightarrow> Inr (xs[j := v]))"

text \<open>\<^verbatim>\<open>xs.pop(0)\<close>: the first element and the rest; \<^verbatim>\<open>IndexError\<close> on the empty list.\<close>

definition pop0 :: "'a list \<Rightarrow> exn + 'a \<times> 'a list" where
  "pop0 xs = (case xs of [] \<Rightarrow> Inl IndexError | x # r \<Rightarrow> Inr (x, r))"

subsection \<open>The interpreter object\<close>

text \<open>
  The dataclass \<^verbatim>\<open>ExtendedInterpreter\<close>. The field \<^verbatim>\<open>done\<close> is \<open>done'\<close> here, and
  \<open>None\<close> is Python's \<^verbatim>\<open>None\<close>.
\<close>

record interp =
  bytecode :: "instr list"
  locals :: "val list"
  stack :: "val list"
  pc :: int
  done' :: "outcome option"

subsection \<open>The step methods\<close>

text \<open>
  Each method returns the updated object, or the exception it raises. The top of
  the stack is index 0.
\<close>

definition step_push :: "val \<Rightarrow> interp \<Rightarrow> exn + interp" where
  "step_push v s = Inr (s\<lparr>stack := v # stack s, pc := pc s + 1\<rparr>)"

definition step_pop :: "interp \<Rightarrow> exn + interp" where
  "step_pop s =
     (case pop0 (stack s) of
        Inl e \<Rightarrow> Inl e
      | Inr (_, r) \<Rightarrow> Inr (s\<lparr>stack := r, pc := pc s + 1\<rparr>))"

definition step_dup :: "interp \<Rightarrow> exn + interp" where
  "step_dup s =
     (case py_get (stack s) 0 of
        Inl e \<Rightarrow> Inl e
      | Inr x \<Rightarrow> Inr (s\<lparr>stack := x # stack s, pc := pc s + 1\<rparr>))"

text \<open>
  \<^verbatim>\<open>self.stack[0], self.stack[1] = self.stack[1], self.stack[0]\<close>: the right-hand side
  is read first (index 1, then index 0), then index 0 and index 1 are assigned.
\<close>

definition step_swap :: "interp \<Rightarrow> exn + interp" where
  "step_swap s =
     (case py_get (stack s) 1 of
        Inl e \<Rightarrow> Inl e
      | Inr y \<Rightarrow>
         (case py_get (stack s) 0 of
            Inl e \<Rightarrow> Inl e
          | Inr x \<Rightarrow>
             (case py_set (stack s) 0 y of
                Inl e \<Rightarrow> Inl e
              | Inr st1 \<Rightarrow>
                 (case py_set st1 1 x of
                    Inl e \<Rightarrow> Inl e
                  | Inr st2 \<Rightarrow> Inr (s\<lparr>stack := st2, pc := pc s + 1\<rparr>)))))"

definition step_nop :: "interp \<Rightarrow> exn + interp" where
  "step_nop s = Inr (s\<lparr>pc := pc s + 1\<rparr>)"

definition step_add :: "interp \<Rightarrow> exn + interp" where
  "step_add s =
     (case pop0 (stack s) of
        Inl e \<Rightarrow> Inl e
      | Inr (val1, r1) \<Rightarrow>
         (case pop0 r1 of
            Inl e \<Rightarrow> Inl e
          | Inr (val2, r2) \<Rightarrow>
             Inr (s\<lparr>stack := IntV (as_int val1 + as_int val2) # r2, pc := pc s + 1\<rparr>)))"

definition step_subtract :: "interp \<Rightarrow> exn + interp" where
  "step_subtract s =
     (case pop0 (stack s) of
        Inl e \<Rightarrow> Inl e
      | Inr (val1, r1) \<Rightarrow>
         (case pop0 r1 of
            Inl e \<Rightarrow> Inl e
          | Inr (val2, r2) \<Rightarrow>
             Inr (s\<lparr>stack := IntV (as_int val2 - as_int val1) # r2, pc := pc s + 1\<rparr>)))"

definition step_multiply :: "interp \<Rightarrow> exn + interp" where
  "step_multiply s =
     (case pop0 (stack s) of
        Inl e \<Rightarrow> Inl e
      | Inr (val1, r1) \<Rightarrow>
         (case pop0 r1 of
            Inl e \<Rightarrow> Inl e
          | Inr (val2, r2) \<Rightarrow>
             Inr (s\<lparr>stack := IntV (as_int val1 * as_int val2) # r2, pc := pc s + 1\<rparr>)))"

text \<open>
  \<^verbatim>\<open>val2 // val1\<close> on Python ints is floor division, as \<open>div\<close> on \<open>int\<close> is. The
  \<^verbatim>\<open>self.pc += 1\<close> follows the \<^verbatim>\<open>if\<close>, so it runs on both branches.
\<close>

definition step_divide :: "interp \<Rightarrow> exn + interp" where
  "step_divide s =
     (case pop0 (stack s) of
        Inl e \<Rightarrow> Inl e
      | Inr (val1, r1) \<Rightarrow>
         (case pop0 r1 of
            Inl e \<Rightarrow> Inl e
          | Inr (val2, r2) \<Rightarrow>
             (if as_int val1 = 0
              then Inr (s\<lparr>stack := r2, pc := pc s + 1, done' := Some DivideByZero\<rparr>)
              else Inr (s\<lparr>stack := IntV (as_int val2 div as_int val1) # r2,
                          pc := pc s + 1\<rparr>))))"

definition step_if_icmpge :: "int \<Rightarrow> interp \<Rightarrow> exn + interp" where
  "step_if_icmpge target s =
     (case pop0 (stack s) of
        Inl e \<Rightarrow> Inl e
      | Inr (val1, r1) \<Rightarrow>
         (case pop0 r1 of
            Inl e \<Rightarrow> Inl e
          | Inr (val2, r2) \<Rightarrow>
             (if as_int val2 \<ge> as_int val1
              then Inr (s\<lparr>stack := r2, pc := target\<rparr>)
              else Inr (s\<lparr>stack := r2, pc := pc s + 1\<rparr>))))"

definition step_if_icmpne :: "int \<Rightarrow> interp \<Rightarrow> exn + interp" where
  "step_if_icmpne target s =
     (case pop0 (stack s) of
        Inl e \<Rightarrow> Inl e
      | Inr (val1, r1) \<Rightarrow>
         (case pop0 r1 of
            Inl e \<Rightarrow> Inl e
          | Inr (val2, r2) \<Rightarrow>
             (if as_int val1 \<noteq> as_int val2
              then Inr (s\<lparr>stack := r2, pc := target\<rparr>)
              else Inr (s\<lparr>stack := r2, pc := pc s + 1\<rparr>))))"

definition step_load :: "int \<Rightarrow> interp \<Rightarrow> exn + interp" where
  "step_load index s =
     (case py_get (locals s) index of
        Inl e \<Rightarrow> Inl e
      | Inr v \<Rightarrow> Inr (s\<lparr>stack := v # stack s, pc := pc s + 1\<rparr>))"

text \<open>\<^verbatim>\<open>self.locals[index] = self.stack.pop(0)\<close>: the pop comes first.\<close>

definition step_store :: "int \<Rightarrow> interp \<Rightarrow> exn + interp" where
  "step_store index s =
     (case pop0 (stack s) of
        Inl e \<Rightarrow> Inl e
      | Inr (v, r) \<Rightarrow>
         (case py_set (locals s) index v of
            Inl e \<Rightarrow> Inl e
          | Inr ls \<Rightarrow> Inr (s\<lparr>locals := ls, stack := r, pc := pc s + 1\<rparr>)))"

text \<open>Neither return method changes \<^verbatim>\<open>self.pc\<close>.\<close>

definition step_return :: "JvmType option \<Rightarrow> interp \<Rightarrow> exn + interp" where
  "step_return ty s =
     (if ty \<noteq> None
      then (case pop0 (stack s) of
              Inl e \<Rightarrow> Inl e
            | Inr (_, r) \<Rightarrow> Inr (s\<lparr>stack := r, done' := Some Ok\<rparr>))
      else Inr (s\<lparr>done' := Some Ok\<rparr>))"

definition step_ireturn :: "interp \<Rightarrow> exn + interp" where
  "step_ireturn s =
     (case pop0 (stack s) of
        Inl e \<Rightarrow> Inl e
      | Inr (v, r) \<Rightarrow> Inr (s\<lparr>stack := r, done' := Some (Returned v)\<rparr>))"

subsection \<open>Dispatch and the loop\<close>

text \<open>
  \<^verbatim>\<open>getattr(self, "step_" + next_instruction["opr"], None)\<close> followed by the call:
  \<open>None\<close> when the class has no such method.
\<close>

fun dispatch :: "instr \<Rightarrow> interp \<Rightarrow> (exn + interp) option" where
  "dispatch (Push v) s = Some (step_push v s)"
| "dispatch Pop s = Some (step_pop s)"
| "dispatch Dup s = Some (step_dup s)"
| "dispatch Swap s = Some (step_swap s)"
| "dispatch Nop s = Some (step_nop s)"
| "dispatch Add s = Some (step_add s)"
| "dispatch Subtract s = Some (step_subtract s)"
| "dispatch Multiply s = Some (step_multiply s)"
| "dispatch Divide s = Some (step_divide s)"
| "dispatch (If_icmpge t) s = Some (step_if_icmpge t s)"
| "dispatch (If_icmpne t) s = Some (step_if_icmpne t s)"
| "dispatch (Load k) s = Some (step_load k s)"
| "dispatch (Store k) s = Some (step_store k s)"
| "dispatch (Return ty) s = Some (step_return ty s)"
| "dispatch Ireturn s = Some (step_ireturn s)"
| "dispatch (Unknown opr) s = None"

text \<open>The \<^verbatim>\<open>"opr"\<close> of an entry, as the message of \<^verbatim>\<open>can't handle\<close> names it.\<close>

fun opr :: "instr \<Rightarrow> string" where
  "opr (Push v) = ''push''"
| "opr Pop = ''pop''"
| "opr Dup = ''dup''"
| "opr Swap = ''swap''"
| "opr Nop = ''nop''"
| "opr Add = ''add''"
| "opr Subtract = ''subtract''"
| "opr Multiply = ''multiply''"
| "opr Divide = ''divide''"
| "opr (If_icmpge t) = ''if_icmpge''"
| "opr (If_icmpne t) = ''if_icmpne''"
| "opr (Load k) = ''load''"
| "opr (Store k) = ''store''"
| "opr (Return ty) = ''return''"
| "opr Ireturn = ''ireturn''"
| "opr (Unknown name) = name"

text \<open>
  One line of the debug log of an iteration: the step number, the pc, the instruction,
  the locals and the stack, all read before the instruction is dispatched.
\<close>

type_synonym entry = "nat \<times> int \<times> instr \<times> val list \<times> val list"

text \<open>
  How one pass through the body of the \<^verbatim>\<open>for\<close> ends: an exception, the end of the
  loop (the \<^verbatim>\<open>return\<close> of the \<^verbatim>\<open>can't handle\<close> string, or the \<^verbatim>\<open>break\<close>, after which
  \<^verbatim>\<open>self.done\<close> is returned), or the next iteration.
\<close>

datatype flow = Raise exn | Stop outcome interp | Continue interp

definition iteration :: "nat \<Rightarrow> interp \<Rightarrow> entry list \<times> flow" where
  "iteration i s =
     (case py_get (bytecode s) (pc s) of
        Inl e \<Rightarrow> ([], Raise e)
      | Inr next_instruction \<Rightarrow>
         (let logged = [(i, pc s, next_instruction, locals s, stack s)]
          in case dispatch next_instruction s of
               None \<Rightarrow> (logged, Stop (CantHandle (opr next_instruction)) s)
             | Some (Inl e) \<Rightarrow> (logged, Raise e)
             | Some (Inr s') \<Rightarrow>
                 (case done' s' of
                    None \<Rightarrow> (logged, Continue s')
                  | Some d \<Rightarrow>
                      if outcome_truthy d then (logged, Stop d s')
                      else (logged, Continue s'))))"

text \<open>
  \<open>loop n i s\<close> runs the iterations \<open>i, i + 1, \<dots>, i + n - 1\<close> of
  \<^verbatim>\<open>for i in range(limit)\<close>; with none left, the \<^verbatim>\<open>else\<close> of the \<^verbatim>\<open>for\<close> sets
  \<^verbatim>\<open>self.done = "out of time"\<close>, which is returned. The result is the log, and the
  exception raised or the value returned with the final object.
\<close>

fun loop :: "nat \<Rightarrow> nat \<Rightarrow> interp \<Rightarrow> entry list \<times> (exn + outcome \<times> interp)" where
  "loop 0 i s = ([], Inr (OutOfTime, s\<lparr>done' := Some OutOfTime\<rparr>))"
| "loop (Suc n) i s =
     (case iteration i s of
        (logged, Raise e) \<Rightarrow> (logged, Inl e)
      | (logged, Stop d s') \<Rightarrow> (logged, Inr (d, s'))
      | (logged, Continue s') \<Rightarrow>
          (case loop n (Suc i) s' of (rest, r) \<Rightarrow> (logged @ rest, r)))"

text \<open>
  The method \<^verbatim>\<open>interpret\<close> (\<open>interpret'\<close> here); \<^verbatim>\<open>range(limit)\<close> is empty for a
  limit of 0 or less.
\<close>

definition interpret' :: "interp \<Rightarrow> int \<Rightarrow> entry list \<times> (exn + outcome \<times> interp)" where
  "interpret' s limit = loop (nat limit) 0 s"

text \<open>
  \<^verbatim>\<open>create_interpreter\<close>, with the bytecode of the method given instead of read from
  the decompiled class file; \<^verbatim>\<open>done\<close> has its default \<^verbatim>\<open>None\<close>.
\<close>

definition create_interpreter :: "instr list \<Rightarrow> val list \<Rightarrow> interp" where
  "create_interpreter code inputs =
     \<lparr>bytecode = code, locals = inputs, stack = [], pc = 0, done' = None\<rparr>"

text \<open>
  The run of the specification: \<^verbatim>\<open>create_interpreter(inputs).interpret(limit)\<close>, as
  \<^verbatim>\<open>__main__\<close> calls it.
\<close>

definition run :: "instr list \<Rightarrow> val list \<Rightarrow> int \<Rightarrow> entry list \<times> (exn + outcome \<times> interp)" where
  "run instructions initial_locals step_limit =
     interpret' (create_interpreter instructions initial_locals) step_limit"

text \<open>
  The value a run returned, \<open>None\<close> when an exception left \<^verbatim>\<open>interpret\<close> instead.
\<close>

definition outcome_of :: "entry list \<times> (exn + outcome \<times> interp) \<Rightarrow> outcome option" where
  "outcome_of r = (case snd r of Inl e \<Rightarrow> None | Inr (d, s) \<Rightarrow> Some d)"

text \<open>
  \<open>no_outcome_for n i s\<close>: each of the \<open>n\<close> iterations from \<open>s\<close> on fetches and
  dispatches its instruction without an exception, and \<^verbatim>\<open>self.done\<close> is still
  \<^verbatim>\<open>None\<close> after it.
\<close>

fun no_outcome_for :: "nat \<Rightarrow> nat \<Rightarrow> interp \<Rightarrow> bool" where
  "no_outcome_for 0 i s = True"
| "no_outcome_for (Suc n) i s =
     (case snd (iteration i s) of
        Continue s' \<Rightarrow> done' s' = None \<and> no_outcome_for n (Suc i) s'
      | _ \<Rightarrow> False)"

text \<open>
  An index that \<^verbatim>\<open>xs[i]\<close> rejects: below \<open>-len(xs)\<close> or not below \<open>len(xs)\<close>.
\<close>

definition index_outside :: "'a list \<Rightarrow> int \<Rightarrow> bool" where
  "index_outside xs i = (i < - int (length xs) \<or> int (length xs) \<le> i)"

text \<open>
  The number of stack entries the handler of an instruction takes: one for each
  \<^verbatim>\<open>self.stack.pop(0)\<close> it executes, and for \<^verbatim>\<open>step_dup\<close> and \<^verbatim>\<open>step_swap\<close> the
  entries they read by index (\<^verbatim>\<open>self.stack[0]\<close>, \<^verbatim>\<open>self.stack[1]\<close>).
\<close>

fun operands :: "instr \<Rightarrow> nat" where
  "operands (Push v) = 0"
| "operands Pop = 1"
| "operands Dup = 1"
| "operands Swap = 2"
| "operands Nop = 0"
| "operands Add = 2"
| "operands Subtract = 2"
| "operands Multiply = 2"
| "operands Divide = 2"
| "operands (If_icmpge t) = 2"
| "operands (If_icmpne t) = 2"
| "operands (Load k) = 0"
| "operands (Store k) = 1"
| "operands (Return ty) = (if ty \<noteq> None then 1 else 0)"
| "operands Ireturn = 1"
| "operands (Unknown name) = 0"

text \<open>The \<^verbatim>\<open>bc["index"]\<close> with which a handler indexes \<^verbatim>\<open>self.locals\<close>.\<close>

fun local_index :: "instr \<Rightarrow> int option" where
  "local_index (Load k) = Some k"
| "local_index (Store k) = Some k"
| "local_index _ = None"

text \<open>The names for which the class has a \<^verbatim>\<open>step_\<close> method.\<close>

definition handled_oprs :: "string list" where
  "handled_oprs =
     [''push'', ''pop'', ''dup'', ''swap'', ''nop'', ''add'', ''subtract'', ''multiply'',
      ''divide'', ''if_icmpge'', ''if_icmpne'', ''load'', ''store'', ''return'', ''ireturn'']"

text \<open>
  \<open>state_after k i s\<close>: the object after the \<open>k\<close> iterations \<open>i, \<dots>, i + k - 1\<close> from
  \<open>s\<close> on, when none of them raises or ends the loop; the object in which iteration
  \<open>i + k\<close> starts.
\<close>

fun state_after :: "nat \<Rightarrow> nat \<Rightarrow> interp \<Rightarrow> interp option" where
  "state_after 0 i s = Some s"
| "state_after (Suc k) i s =
     (case snd (iteration i s) of
        Continue s' \<Rightarrow> state_after k (Suc i) s'
      | _ \<Rightarrow> None)"

section \<open>Properties\<close>

subsection \<open>Unfolding the loop\<close>

lemmas step_defs =
  step_push_def step_pop_def step_dup_def step_swap_def step_nop_def step_add_def
  step_subtract_def step_multiply_def step_divide_def step_if_icmpge_def
  step_if_icmpne_def step_load_def step_store_def step_return_def step_ireturn_def

lemma loop_unfold:
  "0 < n \<Longrightarrow> loop n i s =
     (case iteration i s of
        (logged, Raise e) \<Rightarrow> (logged, Inl e)
      | (logged, Stop d s') \<Rightarrow> (logged, Inr (d, s'))
      | (logged, Continue s') \<Rightarrow>
          (case loop (n - 1) (Suc i) s' of (rest, r) \<Rightarrow> (logged @ rest, r)))"
  by (cases n) simp_all

text \<open>
  No step method writes \<^verbatim>\<open>"out of time"\<close>: a dispatch leaves \<^verbatim>\<open>self.done\<close> as it was
  or sets it to \<^verbatim>\<open>"ok"\<close>, \<^verbatim>\<open>"divide by zero"\<close> or a popped value.
\<close>

lemma dispatch_done:
  assumes "dispatch ins s = Some (Inr s')"
  shows "done' s' = done' s \<or> done' s' = Some Ok \<or> done' s' = Some DivideByZero
         \<or> (\<exists>v. done' s' = Some (Returned v))"
  using assms
  by (cases ins) (auto simp: step_defs split: sum.splits prod.splits if_splits)

lemma iteration_log_length:
  "iteration i s = (logged, Continue s') \<Longrightarrow> length logged = 1"
  by (auto simp: iteration_def Let_def split: sum.splits option.splits if_splits)

lemma iteration_Continue_done:
  "iteration i s = (logged, Continue s') \<Longrightarrow> done' s \<noteq> Some OutOfTime
   \<Longrightarrow> done' s' \<noteq> Some OutOfTime"
  by (auto simp: iteration_def Let_def split: sum.splits option.splits if_splits
      dest!: dispatch_done)

lemma iteration_Stop_done:
  "iteration i s = (logged, Stop d s') \<Longrightarrow> done' s \<noteq> Some OutOfTime \<Longrightarrow> d \<noteq> OutOfTime"
  by (auto simp: iteration_def Let_def split: sum.splits option.splits if_splits
      dest!: dispatch_done)

text \<open>
  A loop of \<open>n\<close> iterations that returns \<^verbatim>\<open>"out of time"\<close> ran all of them; cut to
  \<open>m \<le> n\<close> iterations it runs the first \<open>m\<close> of them and returns the same.
\<close>

lemma loop_out_of_time_prefix:
  "outcome_of (loop n i s) = Some OutOfTime \<Longrightarrow> done' s \<noteq> Some OutOfTime \<Longrightarrow> m \<le> n
   \<Longrightarrow> outcome_of (loop m i s) = Some OutOfTime \<and> length (fst (loop m i s)) = m"
proof (induction n arbitrary: i s m)
  case 0
  then show ?case by (simp add: outcome_of_def)
next
  case (Suc n)
  show ?case
  proof (cases m)
    case 0
    then show ?thesis by (simp add: outcome_of_def)
  next
    case (Suc k)
    obtain logged fl where it: "iteration i s = (logged, fl)" by (cases "iteration i s")
    show ?thesis
    proof (cases fl)
      case (Raise e)
      with it Suc.prems(1) show ?thesis by (simp add: outcome_of_def)
    next
      case (Stop d s')
      with it Suc.prems(1) have "d = OutOfTime" by (simp add: outcome_of_def)
      with it Stop Suc.prems(2) iteration_Stop_done show ?thesis by blast
    next
      case (Continue s')
      from it Continue Suc.prems(2) have d: "done' s' \<noteq> Some OutOfTime"
        using iteration_Continue_done by blast
      from it Continue have len: "length logged = 1" using iteration_log_length by blast
      from it Continue Suc.prems(1) have o: "outcome_of (loop n (Suc i) s') = Some OutOfTime"
        by (simp add: outcome_of_def split: prod.splits)
      from Suc.prems(3) \<open>m = Suc k\<close> have "k \<le> n" by simp
      from Suc.IH[OF o d this] it Continue len \<open>m = Suc k\<close> show ?thesis
        by (auto simp add: outcome_of_def split: prod.splits)
    qed
  qed
qed

subsection \<open>Where the loop stops\<close>

text \<open>
  A dispatch that leaves a true value in \<^verbatim>\<open>self.done\<close> is the last one: the
  \<^verbatim>\<open>break\<close> is taken and that value is returned.
\<close>

lemma truthy_outcome_stops:
  assumes "py_get (bytecode s) (pc s) = Inr ins" and "dispatch ins s = Some (Inr s')"
    and "done' s' = Some d" and "outcome_truthy d"
  shows "loop (Suc n) i s = ([(i, pc s, ins, locals s, stack s)], Inr (d, s'))"
  using assms by (simp add: iteration_def)

text \<open>
  In particular an \<^verbatim>\<open>ireturn\<close> of a value that is not 0 (and not \<^verbatim>\<open>False\<close>) ends the
  run with that value.
\<close>

lemma ireturn_truthy_returns:
  assumes "py_get (bytecode s) (pc s) = Inr Ireturn" and "stack s = v # r" and "truthy v"
  shows "loop (Suc n) i s =
           ([(i, pc s, Ireturn, locals s, stack s)],
            Inr (Returned v, s\<lparr>stack := r, done' := Some (Returned v)\<rparr>))"
  using assms by (simp add: iteration_def step_ireturn_def pop0_def)

lemma no_outcome_loop:
  "no_outcome_for n i s \<Longrightarrow>
     \<exists>s'. snd (loop n i s) = Inr (OutOfTime, s') \<and> done' s' = Some OutOfTime
          \<and> length (fst (loop n i s)) = n"
proof (induction n arbitrary: i s)
  case 0
  then show ?case by simp
next
  case (Suc n)
  obtain logged fl where it: "iteration i s = (logged, fl)" by (cases "iteration i s")
  with Suc.prems obtain s1 where fl: "fl = Continue s1" and rest: "no_outcome_for n (Suc i) s1"
    by (cases fl) auto
  from it fl have "length logged = 1" using iteration_log_length by blast
  with Suc.IH[OF rest] it fl show ?case
    by (auto split: prod.splits)
qed

subsection \<open>Where an exception is raised\<close>

text \<open>
  The list operations raise exactly on an index outside the list, a handler raises
  exactly when the stack holds fewer entries than it takes or its local index is
  outside the locals, and an iteration raises exactly when the fetch or the handler
  does.
\<close>

lemma py_index_outside: "(py_index xs i = Inl e) = index_outside xs i"
  by (cases e) (auto simp: py_index_def index_outside_def Let_def)

lemma py_get_outside: "(py_get xs i = Inl e) = index_outside xs i"
proof (cases "py_index xs i")
  case (Inl e')
  then have "index_outside xs i" by (simp add: py_index_outside[of xs i e', symmetric])
  with Inl show ?thesis by (cases e; cases e'; simp add: py_get_def)
next
  case (Inr j)
  then have "\<not> index_outside xs i" by (simp add: py_index_outside[of xs i IndexError, symmetric])
  with Inr show ?thesis by (simp add: py_get_def)
qed

lemma py_set_outside: "(py_set xs i v = Inl e) = index_outside xs i"
proof (cases "py_index xs i")
  case (Inl e')
  then have "index_outside xs i" by (simp add: py_index_outside[of xs i e', symmetric])
  with Inl show ?thesis by (cases e; cases e'; simp add: py_set_def)
next
  case (Inr j)
  then have "\<not> index_outside xs i" by (simp add: py_index_outside[of xs i IndexError, symmetric])
  with Inr show ?thesis by (simp add: py_set_def)
qed

lemma exn_all: "(e::exn) = IndexError"
  by (cases e) simp

lemma dispatch_raises_iff:
  "(dispatch ins s = Some (Inl IndexError)) =
     (length (stack s) < operands ins
      \<or> (\<exists>j. local_index ins = Some j \<and> index_outside (locals s) j))"
proof (cases ins)
  case Swap
  show ?thesis
  proof (cases "stack s")
    case Nil
    with Swap show ?thesis by (simp add: step_swap_def py_get_def py_index_def)
  next
    case (Cons x xs)
    with Swap show ?thesis
      by (cases xs) (simp_all add: step_swap_def py_get_def py_set_def py_index_def)
  qed
next
  case Dup
  then show ?thesis by (cases "stack s") (simp_all add: step_dup_def py_get_def py_index_def)
next
  case (Load k)
  then show ?thesis
  proof (cases "py_get (locals s) k")
    case (Inl e)
    then have "index_outside (locals s) k" by (simp add: py_get_outside)
    with Load Inl show ?thesis by (cases e) (simp add: step_load_def)
  next
    case (Inr v)
    then have "\<not> index_outside (locals s) k"
      by (simp add: py_get_outside[of "locals s" k IndexError, symmetric])
    with Load Inr show ?thesis by (simp add: step_load_def)
  qed
next
  case (Store k)
  then show ?thesis
  proof (cases "stack s")
    case Nil
    with Store show ?thesis by (simp add: step_store_def pop0_def)
  next
    case (Cons v r)
    show ?thesis
    proof (cases "py_set (locals s) k v")
      case (Inl e)
      then have "index_outside (locals s) k" by (simp add: py_set_outside)
      with Store Cons Inl show ?thesis by (cases e) (simp add: step_store_def pop0_def)
    next
      case (Inr ls)
      then have "\<not> index_outside (locals s) k"
        by (simp add: py_set_outside[of "locals s" k v IndexError, symmetric])
      with Store Cons Inr show ?thesis by (simp add: step_store_def pop0_def)
    qed
  qed
qed (simp_all add: step_defs pop0_def split: list.splits)


lemma iteration_raises_iff:
  "(\<exists>lg e. iteration i s = (lg, Raise e)) =
     (index_outside (bytecode s) (pc s)
      \<or> (\<exists>ins. py_get (bytecode s) (pc s) = Inr ins
            \<and> (length (stack s) < operands ins
                 \<or> (\<exists>j. local_index ins = Some j \<and> index_outside (locals s) j))))"
proof (cases "py_get (bytecode s) (pc s)")
  case (Inl e)
  then have "index_outside (bytecode s) (pc s)" by (simp add: py_get_outside)
  with Inl show ?thesis by (simp add: iteration_def)
next
  case (Inr ins)
  then have out: "\<not> index_outside (bytecode s) (pc s)"
    by (simp add: py_get_outside[of "bytecode s" "pc s" IndexError, symmetric])
  have "(\<exists>lg e. iteration i s = (lg, Raise e)) = (dispatch ins s = Some (Inl IndexError))"
    using Inr
    by (auto simp: iteration_def Let_def exn_all split: option.splits sum.splits if_splits)
  with Inr out show ?thesis by (simp add: dispatch_raises_iff)
qed

text \<open>
  A run that gets through its first \<open>k\<close> iterations goes on from the object they
  leave; a run that raises does so in an iteration it reaches.
\<close>

lemma loop_after:
  "state_after k i s = Some s' \<Longrightarrow>
     \<exists>lg. length lg = k \<and> loop (k + n) i s = (lg @ fst (loop n (i + k) s'), snd (loop n (i + k) s'))"
proof (induction k arbitrary: i s)
  case 0
  then show ?case by simp
next
  case (Suc k)
  obtain logged fl where it: "iteration i s = (logged, fl)" by (cases "iteration i s")
  with Suc.prems obtain s1 where fl: "fl = Continue s1" and rest: "state_after k (Suc i) s1 = Some s'"
    by (cases fl) auto
  from it fl have len: "length logged = 1" using iteration_log_length by blast
  from Suc.IH[OF rest] obtain lg where lg: "length lg = k"
    and eq: "loop (k + n) (Suc i) s1 = (lg @ fst (loop n (Suc i + k) s'), snd (loop n (Suc i + k) s'))"
    by blast
  from it fl eq have "loop (Suc k + n) i s = ((logged @ lg) @ fst (loop n (i + Suc k) s'), snd (loop n (i + Suc k) s'))"
    by simp
  with len lg show ?case by (metis length_append add.commute plus_1_eq_Suc)
qed


lemma iteration_dispatch_raise:
  "py_get (bytecode s) (pc s) = Inr ins \<Longrightarrow> dispatch ins s = Some (Inl e)
   \<Longrightarrow> iteration i s = ([(i, pc s, ins, locals s, stack s)], Raise e)"
  by (simp add: iteration_def)

lemma loop_raise_reached:
  "snd (loop n i s) = Inl e \<Longrightarrow>
     \<exists>k s'. k < n \<and> state_after k i s = Some s' \<and> (\<exists>lg. iteration (i + k) s' = (lg, Raise e))"
proof (induction n arbitrary: i s)
  case 0
  then show ?case by simp
next
  case (Suc n)
  obtain logged fl where it: "iteration i s = (logged, fl)" by (cases "iteration i s")
  show ?case
  proof (cases fl)
    case (Raise e')
    with it Suc.prems have "e' = e" by simp
    with it Raise have "state_after 0 i s = Some s \<and> (\<exists>lg. iteration (i + 0) s = (lg, Raise e))"
      by simp
    then show ?thesis by blast
  next
    case (Stop d s1)
    with it Suc.prems show ?thesis by simp
  next
    case (Continue s1)
    with it Suc.prems have "snd (loop n (Suc i) s1) = Inl e" by (simp split: prod.splits)
    from Suc.IH[OF this] obtain k s' lg where k: "k < n"
      and st: "state_after k (Suc i) s1 = Some s'" and r: "iteration (Suc i + k) s' = (lg, Raise e)"
      by blast
    from it Continue st have "state_after (Suc k) i s = Some s'" by simp
    moreover from r have "iteration (i + Suc k) s' = (lg, Raise e)" by simp
    moreover from k have "Suc k < Suc n" by simp
    ultimately show ?thesis by blast
  qed
qed

subsection \<open>Return of a value\<close>

text \<open>
  C1. The claim: a run that reaches \<^verbatim>\<open>ireturn\<close> within the step budget returns the
  integer on top of the stack, also when it is 0. The code on
  \<^verbatim>\<open>[push 0, ireturn]\<close> with no locals and limit 100: \<^verbatim>\<open>step_ireturn\<close> sets
  \<^verbatim>\<open>self.done = 0\<close>, the test \<^verbatim>\<open>if self.done\<close> is false for 0, so the loop goes on at the
  same pc, dispatches \<^verbatim>\<open>ireturn\<close> a second time on the now empty stack, and
  \<^verbatim>\<open>self.stack.pop(0)\<close> raises \<^verbatim>\<open>IndexError\<close>. No 0 is returned.
\<close>

theorem ireturn_zero_raises:
  "run [Push (IntV 0), Ireturn] [] 100 =
     ([(0, 0, Push (IntV 0), [], []), (1, 1, Ireturn, [], [IntV 0]), (2, 1, Ireturn, [], [])],
      Inl IndexError)"
  by code_simp

text \<open>
  C2. The claim: once a dispatch has set an outcome, no further instruction is
  dispatched. The code on \<^verbatim>\<open>[push 7, push 0, ireturn]\<close> with limit 100: the dispatch of
  step 2 sets \<^verbatim>\<open>self.done = 0\<close>, the loop does not break on it, and step 3 dispatches
  \<^verbatim>\<open>ireturn\<close> again, which overwrites the outcome with 7; the run returns 7. The log
  has four entries, two of them for the \<^verbatim>\<open>ireturn\<close> at pc 2.
\<close>

theorem ireturn_zero_dispatches_again:
  "run [Push (IntV 7), Push (IntV 0), Ireturn] [] 100 =
     ([(0, 0, Push (IntV 7), [], []), (1, 1, Push (IntV 0), [], [IntV 7]),
       (2, 2, Ireturn, [], [IntV 0, IntV 7]), (3, 2, Ireturn, [], [IntV 7])],
      Inr (Returned (IntV 7),
           \<lparr>bytecode = [Push (IntV 7), Push (IntV 0), Ireturn], locals = [],
            stack = [], pc = 2, done' = Some (Returned (IntV 7))\<rparr>))"
  by code_simp

subsection \<open>Errors\<close>

text \<open>
  C3, as claimed: no exception escapes \<^verbatim>\<open>interpret\<close>, a pop from an empty stack
  being one of the errors that end in an outcome. On \<^verbatim>\<open>[pop]\<close> with no locals the
  first dispatch raises \<^verbatim>\<open>IndexError\<close> out of \<^verbatim>\<open>interpret\<close>, and nothing is returned.
\<close>

theorem pop_empty_raises:
  "run [Pop] [] 100 = ([(0, 0, Pop, [], [])], Inl IndexError)"
  by code_simp

text \<open>
  C3, amended. Let the run reach iteration \<open>k\<close>, within the limit, in the object
  \<open>s\<close>. If the instruction fetched there has an opcode without a handler,
  \<^verbatim>\<open>interpret\<close> returns \<^verbatim>\<open>can't handle\<close> with that opcode; if it is a \<^verbatim>\<open>divide\<close>
  whose divisor is 0, \<^verbatim>\<open>interpret\<close> returns \<^verbatim>\<open>"divide by zero"\<close>; both after
  \<open>k + 1\<close> dispatches and without an exception. If the pc is outside the bytecode,
  \<^verbatim>\<open>interpret\<close> raises \<^verbatim>\<open>IndexError\<close> after \<open>k\<close> dispatches. If the handler of the
  instruction takes more entries than the stack holds (any opcode that pops or reads
  the stack), or the instruction is a \<^verbatim>\<open>load\<close> or \<^verbatim>\<open>store\<close> whose index is outside the
  locals, \<^verbatim>\<open>interpret\<close> raises \<^verbatim>\<open>IndexError\<close> in dispatch \<open>k + 1\<close>. No outcome is
  returned in these three cases, and a run raises in no other case. Outside is by
  Python's index rule: an index from \<open>-len\<close> to \<open>-1\<close> counts from the end.
\<close>

theorem errors_outcome_or_IndexError:
  assumes "state_after k 0 s0 = Some s" and "int k < limit"
  shows "(py_get (bytecode s) (pc s) = Inr (Unknown name) \<and> name \<notin> set handled_oprs \<longrightarrow>
            snd (interpret' s0 limit) = Inr (CantHandle name, s)
            \<and> length (fst (interpret' s0 limit)) = Suc k)
       \<and> (py_get (bytecode s) (pc s) = Inr Divide \<and> stack s = a # b # r \<and> as_int a = 0 \<longrightarrow>
            snd (interpret' s0 limit) =
              Inr (DivideByZero, s\<lparr>stack := r, pc := pc s + 1, done' := Some DivideByZero\<rparr>)
            \<and> length (fst (interpret' s0 limit)) = Suc k)
       \<and> (index_outside (bytecode s) (pc s) \<longrightarrow>
            snd (interpret' s0 limit) = Inl IndexError
            \<and> length (fst (interpret' s0 limit)) = k)
       \<and> (py_get (bytecode s) (pc s) = Inr ins \<and> length (stack s) < operands ins \<longrightarrow>
            snd (interpret' s0 limit) = Inl IndexError
            \<and> length (fst (interpret' s0 limit)) = Suc k)
       \<and> (py_get (bytecode s) (pc s) = Inr ins \<and> local_index ins = Some j
            \<and> index_outside (locals s) j \<longrightarrow>
            snd (interpret' s0 limit) = Inl IndexError
            \<and> length (fst (interpret' s0 limit)) = Suc k)
       \<and> ((\<exists>e. snd (interpret' s0 limit) = Inl e) \<longrightarrow>
            (\<exists>k' s'. int k' < limit \<and> state_after k' 0 s0 = Some s'
               \<and> (index_outside (bytecode s') (pc s')
                    \<or> (\<exists>ins'. py_get (bytecode s') (pc s') = Inr ins'
                          \<and> (length (stack s') < operands ins'
                               \<or> (\<exists>j'. local_index ins' = Some j'
                                     \<and> index_outside (locals s') j'))))))"
proof -
  define n where "n = nat limit - Suc k"
  from assms(2) have lim: "nat limit = k + Suc n" by (simp add: n_def)
  from loop_after[OF assms(1), of "Suc n"] obtain lg where lg: "length lg = k"
    and eq: "loop (k + Suc n) 0 s0 = (lg @ fst (loop (Suc n) k s), snd (loop (Suc n) k s))"
    by auto
  have res: "snd (interpret' s0 limit) = snd (loop (Suc n) k s)"
    and len: "length (fst (interpret' s0 limit)) = k + length (fst (loop (Suc n) k s))"
    using eq lg lim by (simp_all add: interpret'_def)
  have unknown: "py_get (bytecode s) (pc s) = Inr (Unknown name) \<Longrightarrow>
      loop (Suc n) k s = ([(k, pc s, Unknown name, locals s, stack s)], Inr (CantHandle name, s))"
    by (simp add: iteration_def)
  have divide: "py_get (bytecode s) (pc s) = Inr Divide \<Longrightarrow> stack s = a # b # r
      \<Longrightarrow> as_int a = 0 \<Longrightarrow>
      loop (Suc n) k s =
        ([(k, pc s, Divide, locals s, stack s)],
         Inr (DivideByZero, s\<lparr>stack := r, pc := pc s + 1, done' := Some DivideByZero\<rparr>))"
    by (simp add: iteration_def step_divide_def pop0_def)
  have fetch: "index_outside (bytecode s) (pc s) \<Longrightarrow> loop (Suc n) k s = ([], Inl IndexError)"
  proof -
    assume "index_outside (bytecode s) (pc s)"
    then have "py_get (bytecode s) (pc s) = Inl IndexError" by (simp add: py_get_outside)
    then show ?thesis by (simp add: iteration_def)
  qed
  have raise: "py_get (bytecode s) (pc s) = Inr ins \<Longrightarrow> dispatch ins s = Some (Inl IndexError)
      \<Longrightarrow> loop (Suc n) k s = ([(k, pc s, ins, locals s, stack s)], Inl IndexError)"
    by (simp add: iteration_dispatch_raise)
  have short: "py_get (bytecode s) (pc s) = Inr ins \<Longrightarrow> length (stack s) < operands ins
      \<Longrightarrow> loop (Suc n) k s = ([(k, pc s, ins, locals s, stack s)], Inl IndexError)"
    using raise by (simp add: dispatch_raises_iff)
  have slot: "py_get (bytecode s) (pc s) = Inr ins \<Longrightarrow> local_index ins = Some j
      \<Longrightarrow> index_outside (locals s) j
      \<Longrightarrow> loop (Suc n) k s = ([(k, pc s, ins, locals s, stack s)], Inl IndexError)"
    using raise by (simp add: dispatch_raises_iff)
  have conv: "(\<exists>e. snd (interpret' s0 limit) = Inl e) \<Longrightarrow>
            (\<exists>k' s'. int k' < limit \<and> state_after k' 0 s0 = Some s'
               \<and> (index_outside (bytecode s') (pc s')
                    \<or> (\<exists>ins'. py_get (bytecode s') (pc s') = Inr ins'
                          \<and> (length (stack s') < operands ins'
                               \<or> (\<exists>j'. local_index ins' = Some j'
                                     \<and> index_outside (locals s') j')))))"
  proof -
    assume "\<exists>e. snd (interpret' s0 limit) = Inl e"
    then obtain e where "snd (loop (nat limit) 0 s0) = Inl e" by (auto simp: interpret'_def)
    from loop_raise_reached[OF this] obtain k' s' lg' where k': "k' < nat limit"
      and st: "state_after k' 0 s0 = Some s'" and r: "iteration (0 + k') s' = (lg', Raise e)"
      by blast
    from r have "\<exists>lg e. iteration k' s' = (lg, Raise e)" by auto
    then have "index_outside (bytecode s') (pc s')
                    \<or> (\<exists>ins'. py_get (bytecode s') (pc s') = Inr ins'
                          \<and> (length (stack s') < operands ins'
                               \<or> (\<exists>j'. local_index ins' = Some j'
                                     \<and> index_outside (locals s') j')))"
      by (simp only: iteration_raises_iff)
    moreover from k' have "int k' < limit" by simp
    ultimately show ?thesis using st by blast
  qed
  show ?thesis
    using unknown divide fetch short slot conv by (simp add: res len)
qed


theorem errors_outcome_or_IndexError_witness:
  "snd (interpret' (create_interpreter [Push (IntV 1), Unknown ''goto'', Nop] []) 100) =
     Inr (CantHandle ''goto'',
          \<lparr>bytecode = [Push (IntV 1), Unknown ''goto'', Nop], locals = [], stack = [IntV 1],
           pc = 1, done' = None\<rparr>)
   \<and> length (fst (interpret' (create_interpreter [Push (IntV 1), Unknown ''goto'', Nop] []) 100)) = 2
   \<and> snd (interpret' (create_interpreter [Push (IntV 5), Push (IntV 0), Divide, Nop] []) 100) =
     Inr (DivideByZero,
          \<lparr>bytecode = [Push (IntV 5), Push (IntV 0), Divide, Nop], locals = [], stack = [],
           pc = 3, done' = Some DivideByZero\<rparr>)
   \<and> length (fst (interpret' (create_interpreter [Push (IntV 5), Push (IntV 0), Divide, Nop] []) 100)) = 3
   \<and> snd (interpret' (create_interpreter [Nop] []) 100) = Inl IndexError
   \<and> length (fst (interpret' (create_interpreter [Nop] []) 100)) = 1
   \<and> snd (interpret' (create_interpreter [Push (IntV 1), Add] []) 100) = Inl IndexError
   \<and> length (fst (interpret' (create_interpreter [Push (IntV 1), Add] []) 100)) = 2
   \<and> snd (interpret' (create_interpreter [Push (IntV 8), Store 0] []) 100) = Inl IndexError
   \<and> length (fst (interpret' (create_interpreter [Push (IntV 8), Store 0] []) 100)) = 2
   \<and> (\<exists>k' s'. int k' < 100
         \<and> state_after k' 0 (create_interpreter [Push (IntV 8), Store 0] []) = Some s'
         \<and> (index_outside (bytecode s') (pc s')
              \<or> (\<exists>ins'. py_get (bytecode s') (pc s') = Inr ins'
                    \<and> (length (stack s') < operands ins'
                         \<or> (\<exists>j'. local_index ins' = Some j'
                               \<and> index_outside (locals s') j')))))"
proof -
  let ?cu = "[Push (IntV 1), Unknown ''goto'', Nop]"
  let ?su = "\<lparr>bytecode = ?cu, locals = [], stack = [IntV 1], pc = 1, done' = None\<rparr>"
  let ?cd = "[Push (IntV 5), Push (IntV 0), Divide, Nop]"
  let ?sd = "\<lparr>bytecode = ?cd, locals = [], stack = [IntV 0, IntV 5], pc = 2, done' = None\<rparr>"
  let ?cf = "[Nop]"
  let ?sf = "\<lparr>bytecode = ?cf, locals = [], stack = [], pc = 1, done' = None\<rparr>"
  let ?ca = "[Push (IntV 1), Add]"
  let ?sa = "\<lparr>bytecode = ?ca, locals = [], stack = [IntV 1], pc = 1, done' = None\<rparr>"
  let ?cs = "[Push (IntV 8), Store 0]"
  let ?ss = "\<lparr>bytecode = ?cs, locals = [], stack = [IntV 8], pc = 1, done' = None\<rparr>"
  have lim1: "int 1 < 100" and lim2: "int 2 < 100" by simp_all
  have ru: "state_after 1 0 (create_interpreter ?cu []) = Some ?su" by code_simp
  have rd: "state_after 2 0 (create_interpreter ?cd []) = Some ?sd" by code_simp
  have rf: "state_after 1 0 (create_interpreter ?cf []) = Some ?sf" by code_simp
  have ra: "state_after 1 0 (create_interpreter ?ca []) = Some ?sa" by code_simp
  have rs: "state_after 1 0 (create_interpreter ?cs []) = Some ?ss" by code_simp
  have hu: "py_get (bytecode ?su) (pc ?su) = Inr (Unknown ''goto'') \<and> ''goto'' \<notin> set handled_oprs"
    by (simp add: py_get_def py_index_def handled_oprs_def)
  have hd: "py_get (bytecode ?sd) (pc ?sd) = Inr Divide \<and> stack ?sd = [IntV 0, IntV 5]
            \<and> as_int (IntV 0) = 0"
    by (simp add: py_get_def py_index_def)
  have hf: "index_outside (bytecode ?sf) (pc ?sf)" by (simp add: index_outside_def)
  have ha: "py_get (bytecode ?sa) (pc ?sa) = Inr Add \<and> length (stack ?sa) < operands Add"
    by (simp add: py_get_def py_index_def)
  have hs: "py_get (bytecode ?ss) (pc ?ss) = Inr (Store 0) \<and> local_index (Store 0) = Some 0
            \<and> index_outside (locals ?ss) 0"
    by (simp add: py_get_def py_index_def index_outside_def)
  from errors_outcome_or_IndexError[OF ru lim1, of "''goto''" "IntV 0" "IntV 5" "[]" Add 0] hu
  have cu: "snd (interpret' (create_interpreter ?cu []) 100) = Inr (CantHandle ''goto'', ?su)
            \<and> length (fst (interpret' (create_interpreter ?cu []) 100)) = 2"
    by simp
  from errors_outcome_or_IndexError[OF rd lim2, of "''goto''" "IntV 0" "IntV 5" "[]" Add 0] hd
  have cd: "snd (interpret' (create_interpreter ?cd []) 100) =
              Inr (DivideByZero,
                   \<lparr>bytecode = ?cd, locals = [], stack = [], pc = 3, done' = Some DivideByZero\<rparr>)
            \<and> length (fst (interpret' (create_interpreter ?cd []) 100)) = 3"
    by simp
  from errors_outcome_or_IndexError[OF rf lim1, of "''goto''" "IntV 0" "IntV 5" "[]" Add 0] hf
  have cf: "snd (interpret' (create_interpreter ?cf []) 100) = Inl IndexError
            \<and> length (fst (interpret' (create_interpreter ?cf []) 100)) = 1"
    by simp
  from errors_outcome_or_IndexError[OF ra lim1, of "''goto''" "IntV 0" "IntV 5" "[]" Add 0] ha
  have ca: "snd (interpret' (create_interpreter ?ca []) 100) = Inl IndexError
            \<and> length (fst (interpret' (create_interpreter ?ca []) 100)) = 2"
    by simp
  note ts = errors_outcome_or_IndexError[OF rs lim1, of "''goto''" "IntV 0" "IntV 5" "[]" "Store 0" 0]
  from ts hs
  have cs: "snd (interpret' (create_interpreter ?cs []) 100) = Inl IndexError
            \<and> length (fst (interpret' (create_interpreter ?cs []) 100)) = 2"
    by simp
  then have "\<exists>e. snd (interpret' (create_interpreter ?cs []) 100) = Inl e" by blast
  with ts have cc: "\<exists>k' s'. int k' < 100
         \<and> state_after k' 0 (create_interpreter ?cs []) = Some s'
         \<and> (index_outside (bytecode s') (pc s')
              \<or> (\<exists>ins'. py_get (bytecode s') (pc s') = Inr ins'
                    \<and> (length (stack s') < operands ins'
                         \<or> (\<exists>j'. local_index ins' = Some j'
                               \<and> index_outside (locals s') j'))))"
    by blast
  from cu cd cf ca cs cc show ?thesis by blast
qed

text \<open>
  C4. When \<^verbatim>\<open>step_divide\<close> pops a divisor \<open>a\<close> equal to 0 (Python's \<^verbatim>\<open>val1 == 0\<close>,
  which \<^verbatim>\<open>False\<close> satisfies too) and then any dividend \<open>b\<close>, it raises nothing, sets
  \<^verbatim>\<open>self.done = "divide by zero"\<close>, pushes nothing, so that the stack is what was
  under the two operands, and advances the pc. In the loop that dispatch is the last
  one and \<^verbatim>\<open>"divide by zero"\<close> is returned.
\<close>

theorem divide_by_zero_outcome:
  assumes "stack s = a # b # r" and "as_int a = 0"
  shows "step_divide s = Inr (s\<lparr>stack := r, pc := pc s + 1, done' := Some DivideByZero\<rparr>)
       \<and> (py_get (bytecode s) (pc s) = Inr Divide \<longrightarrow>
            loop (Suc n) i s =
              ([(i, pc s, Divide, locals s, stack s)],
               Inr (DivideByZero,
                    s\<lparr>stack := r, pc := pc s + 1, done' := Some DivideByZero\<rparr>)))"
  using assms by (simp add: iteration_def step_divide_def pop0_def)

theorem divide_by_zero_outcome_witness:
  "stack \<lparr>bytecode = [Divide], locals = [], stack = [BoolV False, IntV 5, IntV 9], pc = 0,
          done' = None\<rparr> = [BoolV False, IntV 5, IntV 9]
   \<and> as_int (BoolV False) = 0
   \<and> py_get [Divide] 0 = Inr Divide
   \<and> step_divide \<lparr>bytecode = [Divide], locals = [], stack = [BoolV False, IntV 5, IntV 9],
                  pc = 0, done' = None\<rparr>
     = Inr \<lparr>bytecode = [Divide], locals = [], stack = [IntV 9], pc = 1,
            done' = Some DivideByZero\<rparr>
   \<and> loop (Suc 0) 0 \<lparr>bytecode = [Divide], locals = [],
                     stack = [BoolV False, IntV 5, IntV 9], pc = 0, done' = None\<rparr>
     = ([(0, 0, Divide, [], [BoolV False, IntV 5, IntV 9])],
        Inr (DivideByZero,
             \<lparr>bytecode = [Divide], locals = [], stack = [IntV 9], pc = 1,
              done' = Some DivideByZero\<rparr>))"
proof -
  let ?s = "\<lparr>bytecode = [Divide], locals = [], stack = [BoolV False, IntV 5, IntV 9], pc = 0,
             done' = None\<rparr>"
  have h1: "stack ?s = [BoolV False, IntV 5, IntV 9]" by simp
  have h2: "as_int (BoolV False) = 0" by simp
  have h3: "py_get [Divide] 0 = Inr Divide" by (simp add: py_get_def py_index_def)
  from divide_by_zero_outcome[OF h1 h2, of 0 0] h1 h2 h3 show ?thesis by simp
qed

subsection \<open>The step budget\<close>

text \<open>
  C5. If a run with step limit \<open>L\<close> returns \<^verbatim>\<open>"out of time"\<close>, the run of the same
  instructions and locals with any smaller limit \<open>L'\<close> returns \<^verbatim>\<open>"out of time"\<close> too.
  The two runs dispatch \<open>nat L'\<close> and \<open>nat L\<close> instructions: the smaller limit never
  dispatches more, and dispatches fewer whenever \<open>L\<close> is positive (for limits of 0 or
  less \<^verbatim>\<open>range(limit)\<close> is empty and both runs dispatch nothing).
\<close>

theorem out_of_time_monotone:
  assumes "outcome_of (run code inputs L) = Some OutOfTime" and "L' < L"
  shows "outcome_of (run code inputs L') = Some OutOfTime
       \<and> length (fst (run code inputs L')) = nat L'
       \<and> length (fst (run code inputs L)) = nat L
       \<and> length (fst (run code inputs L')) \<le> length (fst (run code inputs L))
       \<and> (0 < L \<longrightarrow> length (fst (run code inputs L')) < length (fst (run code inputs L)))"
proof -
  let ?s = "create_interpreter code inputs"
  have d: "done' ?s \<noteq> Some OutOfTime" by (simp add: create_interpreter_def)
  from assms(1) have o: "outcome_of (loop (nat L) 0 ?s) = Some OutOfTime"
    by (simp add: run_def interpret'_def)
  from assms(2) have le: "nat L' \<le> nat L" by simp
  from loop_out_of_time_prefix[OF o d le] loop_out_of_time_prefix[OF o d order_refl] assms(2)
  show ?thesis by (auto simp: run_def interpret'_def)
qed

theorem out_of_time_monotone_witness:
  "outcome_of (run [Push (IntV 0), Push (IntV 1), If_icmpne 0] [] 5) = Some OutOfTime
   \<and> (3::int) < 5 \<and> (0::int) < 5
   \<and> outcome_of (run [Push (IntV 0), Push (IntV 1), If_icmpne 0] [] 3) = Some OutOfTime
   \<and> length (fst (run [Push (IntV 0), Push (IntV 1), If_icmpne 0] [] 3)) = 3
   \<and> length (fst (run [Push (IntV 0), Push (IntV 1), If_icmpne 0] [] 5)) = 5
   \<and> length (fst (run [Push (IntV 0), Push (IntV 1), If_icmpne 0] [] 3))
       < length (fst (run [Push (IntV 0), Push (IntV 1), If_icmpne 0] [] 5))"
proof -
  have h1: "outcome_of (run [Push (IntV 0), Push (IntV 1), If_icmpne 0] [] 5) = Some OutOfTime"
    by code_simp
  have h2: "(3::int) < 5" by simp
  from out_of_time_monotone[OF h1 h2] h1 h2 show ?thesis by simp
qed

text \<open>
  C8. If each of the \<open>nat L\<close> iterations of the loop dispatches its instruction
  without an exception and leaves \<^verbatim>\<open>self.done\<close> unset, the run returns exactly
  \<^verbatim>\<open>"out of time"\<close>, which is also what \<^verbatim>\<open>self.done\<close> then holds, after \<open>nat L\<close>
  dispatches.
\<close>

theorem budget_exhausted_out_of_time:
  assumes "no_outcome_for (nat L) 0 (create_interpreter code inputs)"
  shows "\<exists>s'. snd (run code inputs L) = Inr (OutOfTime, s') \<and> done' s' = Some OutOfTime
              \<and> length (fst (run code inputs L)) = nat L"
  using no_outcome_loop[OF assms] by (simp add: run_def interpret'_def)

theorem budget_exhausted_out_of_time_witness:
  "no_outcome_for (nat 4) 0 (create_interpreter [Push (IntV 0), Push (IntV 1), If_icmpne 0] [])
   \<and> (\<exists>s'. snd (run [Push (IntV 0), Push (IntV 1), If_icmpne 0] [] 4) = Inr (OutOfTime, s')
          \<and> done' s' = Some OutOfTime
          \<and> length (fst (run [Push (IntV 0), Push (IntV 1), If_icmpne 0] [] 4)) = nat 4)"
proof -
  have h: "no_outcome_for (nat 4) 0
             (create_interpreter [Push (IntV 0), Push (IntV 1), If_icmpne 0] [])"
    by code_simp
  from budget_exhausted_out_of_time[OF h] h show ?thesis by blast
qed

subsection \<open>Arithmetic\<close>

text \<open>
  C6. \<^verbatim>\<open>step_divide\<close> with a divisor \<open>a\<close> (popped first, so pushed later) other than 0
  and a dividend \<open>b\<close> (pushed earlier) pushes the floor of \<open>b / a\<close>. Pushing -7, then 2,
  then dividing leaves -4 on the stack.
\<close>

theorem divide_floor:
  assumes "stack s = a # b # r" and "as_int a \<noteq> 0"
  shows "step_divide s =
           Inr (s\<lparr>stack := IntV \<lfloor>real_of_int (as_int b) / real_of_int (as_int a)\<rfloor> # r,
                  pc := pc s + 1\<rparr>)
       \<and> snd (run [Push (IntV (- 7)), Push (IntV 2), Divide] [] 3) =
           Inr (OutOfTime,
                \<lparr>bytecode = [Push (IntV (- 7)), Push (IntV 2), Divide], locals = [],
                 stack = [IntV (- 4)], pc = 3, done' = Some OutOfTime\<rparr>)"
proof -
  have "snd (run [Push (IntV (- 7)), Push (IntV 2), Divide] [] 3) =
           Inr (OutOfTime,
                \<lparr>bytecode = [Push (IntV (- 7)), Push (IntV 2), Divide], locals = [],
                 stack = [IntV (- 4)], pc = 3, done' = Some OutOfTime\<rparr>)"
    by code_simp
  with assms show ?thesis by (simp add: step_divide_def pop0_def floor_divide_of_int_eq)
qed

theorem divide_floor_witness:
  "stack \<lparr>bytecode = [Divide], locals = [], stack = [IntV 2, IntV (- 7)], pc = 0,
          done' = None\<rparr> = [IntV 2, IntV (- 7)]
   \<and> as_int (IntV 2) \<noteq> 0
   \<and> step_divide \<lparr>bytecode = [Divide], locals = [], stack = [IntV 2, IntV (- 7)], pc = 0,
                  done' = None\<rparr>
     = Inr \<lparr>bytecode = [Divide], locals = [], stack = [IntV (- 4)], pc = 1, done' = None\<rparr>"
proof -
  let ?s = "\<lparr>bytecode = [Divide], locals = [], stack = [IntV 2, IntV (- 7)], pc = 0,
             done' = None\<rparr>"
  have h1: "stack ?s = [IntV 2, IntV (- 7)]" by simp
  have h2: "as_int (IntV 2) \<noteq> 0" by simp
  from divide_floor[OF h1 h2] h1 h2 show ?thesis by simp
qed

text \<open>
  C7. \<^verbatim>\<open>step_subtract\<close> pops \<open>a\<close>, then \<open>b\<close>, and pushes \<open>b - a\<close>: the operand pushed
  earlier is the minuend. Pushing 10, then 3, then subtracting leaves 7 on top of the
  stack.
\<close>

theorem subtract_operand_order:
  "step_subtract (s\<lparr>stack := a # b # r\<rparr>) =
     Inr (s\<lparr>stack := IntV (as_int b - as_int a) # r, pc := pc s + 1\<rparr>)
   \<and> snd (run [Push (IntV 10), Push (IntV 3), Subtract] [] 3) =
       Inr (OutOfTime,
            \<lparr>bytecode = [Push (IntV 10), Push (IntV 3), Subtract], locals = [],
             stack = [IntV 7], pc = 3, done' = Some OutOfTime\<rparr>)"
proof -
  have "snd (run [Push (IntV 10), Push (IntV 3), Subtract] [] 3) =
       Inr (OutOfTime,
            \<lparr>bytecode = [Push (IntV 10), Push (IntV 3), Subtract], locals = [],
             stack = [IntV 7], pc = 3, done' = Some OutOfTime\<rparr>)"
    by code_simp
  then show ?thesis by (simp add: step_subtract_def pop0_def)
qed

text \<open>
  C10. With any two values on top of the stack, booleans included, \<^verbatim>\<open>step_add\<close>,
  \<^verbatim>\<open>step_subtract\<close> and \<^verbatim>\<open>step_multiply\<close> raise nothing and push the integer result
  computed with \<^verbatim>\<open>True\<close> as 1 and \<^verbatim>\<open>False\<close> as 0; \<^verbatim>\<open>step_divide\<close> does the same unless
  the divisor counts as 0, where it sets \<^verbatim>\<open>"divide by zero"\<close>. Adding \<^verbatim>\<open>True\<close> and
  \<^verbatim>\<open>True\<close> pushes the integer 2.
\<close>

theorem arithmetic_coerces_booleans:
  "step_add (s\<lparr>stack := a # b # r\<rparr>) =
     Inr (s\<lparr>stack := IntV (as_int a + as_int b) # r, pc := pc s + 1\<rparr>)
   \<and> step_subtract (s\<lparr>stack := a # b # r\<rparr>) =
     Inr (s\<lparr>stack := IntV (as_int b - as_int a) # r, pc := pc s + 1\<rparr>)
   \<and> step_multiply (s\<lparr>stack := a # b # r\<rparr>) =
     Inr (s\<lparr>stack := IntV (as_int a * as_int b) # r, pc := pc s + 1\<rparr>)
   \<and> step_divide (s\<lparr>stack := a # b # r\<rparr>) =
     Inr (if as_int a = 0
          then s\<lparr>stack := r, pc := pc s + 1, done' := Some DivideByZero\<rparr>
          else s\<lparr>stack := IntV (as_int b div as_int a) # r, pc := pc s + 1\<rparr>)
   \<and> as_int (BoolV True) = 1 \<and> as_int (BoolV False) = 0
   \<and> step_add (s\<lparr>stack := BoolV True # BoolV True # r\<rparr>) =
     Inr (s\<lparr>stack := IntV 2 # r, pc := pc s + 1\<rparr>)"
  by (simp add: step_add_def step_subtract_def step_multiply_def step_divide_def pop0_def)

subsection \<open>Locals\<close>




end
